theory Spec2Isabelle
  imports Main "HOL-Library.Word" "HOL-Library.List_Lexorder" "HOL-Library.Multiset"
begin

section \<open>JavaScript strings\<close>

text \<open>
  A JavaScript string is a sequence of 16-bit code units; \<open>s.length\<close> is the length of
  the sequence, and \<open>a < b\<close> on strings is the lexicographic order of the code units (a
  proper prefix is smaller), which is the order \<^theory_text>\<open>HOL-Library.List_Lexorder\<close>
  puts on lists. \<open>js\<close> writes an ASCII literal as such a string.
\<close>

type_synonym code_unit = "16 word"
type_synonym jsstring = "code_unit list"

definition js :: "string \<Rightarrow> jsstring" where
  "js s = map (\<lambda>c. word_of_nat (of_char c)) s"

text \<open>\<open>s.startsWith(pat)\<close>, used to say where a pattern matches.\<close>

definition startsWith :: "jsstring \<Rightarrow> jsstring \<Rightarrow> bool" where
  "startsWith s pat = (take (length pat) s = pat)"

text \<open>
  \<open>s.replace(pat, rep)\<close> with a string pattern: the first occurrence of \<open>pat\<close> is
  replaced, the rest of the string is kept. (The replacement's \<open>$\<close> patterns are not
  modelled: the only replacement in the source is \<open>"~"\<close>.)
\<close>

fun replace :: "jsstring \<Rightarrow> jsstring \<Rightarrow> jsstring \<Rightarrow> jsstring" where
  "replace [] pat rep = (if pat = [] then rep else [])"
| "replace (c # s) pat rep =
     (if startsWith (c # s) pat then rep @ drop (length pat) (c # s)
      else c # replace s pat rep)"

text \<open>\<open>s.includes(pat)\<close>: \<open>pat\<close> occurs somewhere in \<open>s\<close>.\<close>

fun includes_js :: "jsstring \<Rightarrow> jsstring \<Rightarrow> bool" where
  "includes_js [] pat = (pat = [])"
| "includes_js (c # s) pat = (startsWith (c # s) pat \<or> includes_js s pat)"

text \<open>
  \<open>s.substring(start, end)\<close>: both indices are clamped to \<open>[0, s.length]\<close> and swapped
  when \<open>start > end\<close>.
\<close>

definition substring :: "jsstring \<Rightarrow> int \<Rightarrow> int \<Rightarrow> jsstring" where
  "substring s start end' =
     (let len = int (length s);
          a = min (max start 0) len;
          b = min (max end' 0) len;
          from = min a b;
          to = max a b
      in take (nat (to - from)) (drop (nat from) s))"

section \<open>Key ordering and truncation\<close>

text \<open>
  \<open>compareKeys\<close> (lines 5-16): both labels have their first \<open>"<"\<close> replaced by
  \<open>"~"\<close> and are then compared as strings.
\<close>

definition compareKeys :: "jsstring \<Rightarrow> jsstring \<Rightarrow> int" where
  "compareKeys a b =
     (let a' = replace a (js ''<'') (js ''~'');
          b' = replace b (js ''<'') (js ''~'')
      in if a' < b' then - 1 else if b' < a' then 1 else 0)"

definition ellipsis :: jsstring where
  "ellipsis = js ''...''"

text \<open>\<open>ellipsize\<close> (lines 18-23). \<open>maxLength\<close> is an integer and may be negative.\<close>

definition ellipsize :: "jsstring \<Rightarrow> int \<Rightarrow> jsstring" where
  "ellipsize s maxLength =
     (if int (length s) \<le> maxLength then s
      else substring s 0 (max 0 (maxLength - int (length ellipsis))) @ ellipsis)"

text \<open>
  \<open>Array.prototype.sort(cmp)\<close>: a stable sort. For a consistent comparator (a total
  preorder, which \<open>compareKeys\<close> is) the result is the one stable sorted permutation;
  it is computed here by insertion from the right, which keeps equal elements in their
  original order.
\<close>

fun insert_by :: "('a \<Rightarrow> 'a \<Rightarrow> int) \<Rightarrow> 'a \<Rightarrow> 'a list \<Rightarrow> 'a list" where
  "insert_by cmp x [] = [x]"
| "insert_by cmp x (y # ys) =
     (if cmp x y \<le> 0 then x # y # ys else y # insert_by cmp x ys)"

definition array_sort :: "('a \<Rightarrow> 'a \<Rightarrow> int) \<Rightarrow> 'a list \<Rightarrow> 'a list" where
  "array_sort cmp xs = foldr (insert_by cmp) xs []"

section \<open>Commands\<close>

text \<open>
  An entry of \<open>allCommands\<close> (the catalogue of
  \<open>background_scripts/all_commands.js\<close>, which the functions below take as a
  parameter). \<open>group\<close> is \<open>None\<close> when the entry has no \<open>group\<close> field;
  \<open>advanced\<close> is \<open>False\<close> when the entry has no \<open>advanced\<close> field
  (\<open>undefined\<close> is falsy).
\<close>

record command =
  name :: jsstring
  desc :: jsstring
  group :: "jsstring option"
  advanced :: bool

text \<open>\<open>isAdvancedCommand\<close> (lines 25-30).\<close>

definition isAdvancedCommand :: "command \<Rightarrow> jsstring \<Rightarrow> bool" where
  "isAdvancedCommand command options =
     (advanced command \<or> (name command = js ''reload'' \<and> includes_js options (js ''hard'')))"

section \<open>Objects and arrays\<close>

text \<open>
  An object with string keys is the list of its own properties in the order they were
  created, each key once. \<open>obj_get\<close> is \<open>o[k]\<close> (\<open>None\<close> for \<open>undefined\<close>) and
  \<open>obj_set\<close> is \<open>o[k] = v\<close>. Inherited properties and the \<open>__proto__\<close> accessor are
  outside the model.
\<close>

type_synonym 'v object = "(jsstring \<times> 'v) list"

definition obj_get :: "'v object \<Rightarrow> jsstring \<Rightarrow> 'v option" where
  "obj_get obj k = map_of obj k"

fun obj_set :: "'v object \<Rightarrow> jsstring \<Rightarrow> 'v \<Rightarrow> 'v object" where
  "obj_set [] k v = [(k, v)]"
| "obj_set ((k', v') # obj) k v =
     (if k' = k then (k, v) # obj else (k', v') # obj_set obj k v)"

text \<open>
  \<open>Object.entries\<close> enumerates the keys that are array indices (canonical decimal
  numerals below \<open>2^32 - 1\<close>) first, in ascending numeric order, and then the other keys
  in creation order.
\<close>

definition digit :: "code_unit \<Rightarrow> bool" where
  "digit c = (48 \<le> c \<and> c \<le> 57)"

definition decimal :: "jsstring \<Rightarrow> nat" where
  "decimal s = foldl (\<lambda>n c. 10 * n + (unat c - 48)) 0 s"

definition arrayIndex :: "jsstring \<Rightarrow> bool" where
  "arrayIndex k =
     (k \<noteq> [] \<and> list_all digit k \<and> (k = js ''0'' \<or> hd k \<noteq> 48) \<and> decimal k < 2 ^ 32 - 1)"

definition entries :: "'v object \<Rightarrow> (jsstring \<times> 'v) list" where
  "entries obj =
     sort_key (\<lambda>(k, v). decimal k) (filter (\<lambda>(k, v). arrayIndex k) obj)
     @ filter (\<lambda>(k, v). \<not> arrayIndex k) obj"

text \<open>
  \<open>Object.groupBy(items, f)\<close>: the groups are created in the order their keys first
  occur, and each group lists its items in their original order.
\<close>

fun add_to_group :: "jsstring \<Rightarrow> 'a \<Rightarrow> ('a list) object \<Rightarrow> ('a list) object" where
  "add_to_group k x [] = [(k, [x])]"
| "add_to_group k x ((k', xs) # gs) =
     (if k' = k then (k', xs @ [x]) # gs else (k', xs) # add_to_group k x gs)"

definition groupBy :: "'a list \<Rightarrow> ('a \<Rightarrow> jsstring) \<Rightarrow> ('a list) object" where
  "groupBy items f = foldl (\<lambda>gs x. add_to_group (f x) x gs) [] items"

text \<open>
  The key arrays of the binding table are mutable and shared between the table and the
  rows built from it, so they live in a store: a \<open>ref\<close> is the identity of an array and
  the store gives its present contents. The table itself (command name to option-string
  to key array) is never assigned to by the page, so it is a value.
\<close>

type_synonym ref = nat
type_synonym store = "ref \<Rightarrow> jsstring list"
type_synonym bindings = "(ref object) object"
type_synonym row = "command \<times> jsstring \<times> ref"


section \<open>Rows of the dialog\<close>

text \<open>
  The property key that \<open>Object.groupBy\<close> makes of \<open>o.group\<close>: a missing field is
  \<open>undefined\<close>, whose property key is the string \<open>"undefined"\<close>.
\<close>

definition groupKey :: "command \<Rightarrow> jsstring" where
  "groupKey o' = (case group o' of None \<Rightarrow> js ''undefined'' | Some g \<Rightarrow> g)"

text \<open>\<open>commandToOptionsToKeys[command.name] || {}\<close> (line 84).\<close>

definition variationsOf :: "bindings \<Rightarrow> command \<Rightarrow> ref object" where
  "variationsOf commandToOptionsToKeys command =
     (case obj_get commandToOptionsToKeys (name command) of
        None \<Rightarrow> []
      | Some variations \<Rightarrow> variations)"

text \<open>The loop of lines 85-87: one row is pushed for each variation.\<close>

definition pushVariations :: "row list \<Rightarrow> command \<Rightarrow> ref object \<Rightarrow> row list" where
  "pushVariations list command variations =
     foldl (\<lambda>list (options, keys). list @ [(command, options, keys)]) list (entries variations)"

text \<open>The loop of lines 80-88: the rows of one group.\<close>

definition rowsOfGroup :: "bindings \<Rightarrow> command list \<Rightarrow> row list" where
  "rowsOfGroup commandToOptionsToKeys commands =
     foldl (\<lambda>list command.
              pushVariations list command (variationsOf commandToOptionsToKeys command))
       [] commands"

text \<open>\<open>getRowsForDialog\<close> (lines 76-92).\<close>

definition getRowsForDialog :: "command list \<Rightarrow> bindings \<Rightarrow> (row list) object" where
  "getRowsForDialog allCommands commandToOptionsToKeys =
     foldl (\<lambda>result (group, commands).
              obj_set result group (rowsOfGroup commandToOptionsToKeys commands))
       [] (entries (groupBy allCommands groupKey))"

text \<open>
  The element \<open>getRowEl\<close> returns: the text and the \<open>title\<close> of its
  \<open>.help-description\<close> (\<open>None\<close> when the code does not set the title), whether its
  \<open>.row\<close> has the class \<open>advanced\<close>, and the texts of the key nodes appended to its
  \<open>.key-bindings\<close>.
\<close>

record rowEl =
  help_description :: jsstring
  title :: "jsstring option"
  row_advanced :: bool
  key_bindings :: "jsstring list"

text \<open>
  \<open>getRowEl\<close> (lines 94-124). \<open>keys.sort(compareKeys)\<close> sorts the array in place and
  returns it, so the store is updated at \<open>keys\<close>. The text of the description, first
  set to \<open>command.desc\<close> (line 99), is what line 122 assigns last.
\<close>

definition getRowEl :: "store \<Rightarrow> command \<Rightarrow> jsstring \<Rightarrow> ref \<Rightarrow> store \<times> rowEl" where
  "getRowEl st command options keys =
     (let sorted = array_sort compareKeys (st keys);
          st' = st(keys := sorted);
          maxLength = 40;
          optionsString = ellipsize options (maxLength - int (length (desc command)));
          isTruncated = (optionsString \<noteq> options)
      in (st',
          \<lparr>help_description =
             (if options \<noteq> [] then desc command @ js '' ('' @ optionsString @ js '')''
              else desc command),
           title =
             (if options \<noteq> [] \<and> isTruncated
              then Some (desc command @ js '' ('' @ options @ js '')'')
              else None),
           row_advanced = isAdvancedCommand command options,
           key_bindings = sorted\<rparr>))"

section \<open>The page\<close>

text \<open>
  What the page's methods read and write: whether \<open>HelpDialogPage.dialogElement\<close> is
  set (it is \<open>null\<close> or the \<open>#dialog\<close> element), the number of event listeners
  registered, the text of \<open>#vimium-version\<close>, the children of the group containers
  (\<open>[data-group="g"]\<close>, \<open>None\<close> where the document has no such element), the text of
  \<open>#toggle-advanced a\<close>, the class list of \<open>#dialog\<close>, the \<open>scrollTop\<close> of
  \<open>#container\<close>, the settings store and the names of the messages posted to the host.
\<close>

datatype error = TypeError | AssertionFailed

record page =
  dialogElement :: bool
  listeners :: nat
  vimium_version :: jsstring
  containers :: "jsstring \<rightharpoonup> rowEl list"
  toggle_caption :: jsstring
  classList :: "jsstring set"
  scrollTop :: int
  settings :: "jsstring \<Rightarrow> bool"
  posted :: "jsstring list"

text \<open>
  Modelled from the spec: \<open>Settings.get\<close> and \<open>Settings.set\<close> (the settings store of
  \<open>lib/settings.js\<close>): a store of booleans by key, \<open>false\<close> by default, where
  \<open>get\<close> returns what the last \<open>set\<close> of the key stored.
\<close>

definition Settings_get :: "jsstring \<Rightarrow> page \<Rightarrow> bool" where
  "Settings_get key p = settings p key"

definition Settings_set :: "jsstring \<Rightarrow> bool \<Rightarrow> page \<Rightarrow> page" where
  "Settings_set key v p = p\<lparr>settings := (settings p)(key := v)\<rparr>"

text \<open>\<open>getShowAdvancedCommands\<close> (lines 36-38).\<close>

definition getShowAdvancedCommands :: "page \<Rightarrow> bool" where
  "getShowAdvancedCommands p = Settings_get (js ''helpDialog_showAdvancedCommands'') p"

text \<open>
  \<open>HelpDialogPage.init\<close> (lines 40-72): nothing happens when the dialog element is
  already set; otherwise it is set and five listeners are registered.
\<close>

definition HelpDialogPage_init :: "page \<Rightarrow> page" where
  "HelpDialogPage_init p =
     (if dialogElement p then p
      else p\<lparr>dialogElement := True, listeners := listeners p + 5\<rparr>)"

text \<open>
  \<open>showAdvancedCommands\<close> (lines 169-177). The caption is written first; reading
  \<open>classList\<close> of a dialog element that is \<open>null\<close> then raises a \<open>TypeError\<close>.
\<close>

definition showAdvancedCommands :: "bool \<Rightarrow> page \<Rightarrow> error option \<times> page" where
  "showAdvancedCommands visible p =
     (let caption = (if visible then js ''Hide advanced commands''
                     else js ''Show advanced commands'');
          p1 = p\<lparr>toggle_caption := caption\<rparr>
      in if \<not> dialogElement p1 then (Some TypeError, p1)
         else if visible
           then (None, p1\<lparr>classList := insert (js ''show-advanced'') (classList p1)\<rparr>)
           else (None, p1\<lparr>classList := classList p1 - {js ''show-advanced''}\<rparr>))"

text \<open>
  \<open>toggleAdvancedCommands\<close> (lines 155-167). \<open>scrollHeight\<close> is the layout: the height
  of the content of \<open>#container\<close> in a given state of the page, a parameter.
\<close>

definition toggleAdvancedCommands :: "(page \<Rightarrow> int) \<Rightarrow> page \<Rightarrow> error option \<times> page" where
  "toggleAdvancedCommands scrollHeight p =
     (let scrollHeightBefore = scrollHeight p;
          showAdvanced = getShowAdvancedCommands p
      in case showAdvancedCommands (\<not> showAdvanced) p of
           (Some e, p1) \<Rightarrow> (Some e, p1)
         | (None, p1) \<Rightarrow>
             (let p2 = Settings_set (js ''helpDialog_showAdvancedCommands'') (\<not> showAdvanced) p1;
                  scrollHeightDelta = scrollHeight p2 - scrollHeightBefore
              in if scrollHeightDelta > 0
                 then (None, p2\<lparr>scrollTop := scrollTop p2 + scrollHeightDelta\<rparr>)
                 else (None, p2)))"

text \<open>\<open>hide\<close> (lines 148-150) posts the message \<open>{ name: "hide" }\<close>.\<close>

definition HelpDialogPage_hide :: "page \<Rightarrow> page" where
  "HelpDialogPage_hide p = p\<lparr>posted := posted p @ [js ''hide'']\<rparr>"

text \<open>The inner loop of \<open>show\<close> (lines 136-139): the rows of one container.\<close>

fun renderRows :: "store \<Rightarrow> row list \<Rightarrow> rowEl list \<Rightarrow> store \<times> rowEl list" where
  "renderRows st [] els = (st, els)"
| "renderRows st ((command, options, keys) # rows) els =
     (case getRowEl st command options keys of
        (st', el) \<Rightarrow> renderRows st' rows (els @ [el]))"

text \<open>
  The outer loop of \<open>show\<close> (lines 133-140). It raises a \<open>TypeError\<close> when the dialog
  element is \<open>null\<close> or when the document has no container for the group
  (\<open>querySelector\<close> returns \<open>null\<close>).
\<close>

fun renderGroups ::
  "(jsstring \<times> row list) list \<Rightarrow> store \<Rightarrow> page \<Rightarrow> error option \<times> store \<times> page" where
  "renderGroups [] st p = (None, st, p)"
| "renderGroups ((g, rows) # gs) st p =
     (if \<not> dialogElement p then (Some TypeError, st, p)
      else case containers p g of
        None \<Rightarrow> (Some TypeError, st, p)
      | Some _ \<Rightarrow>
          (case renderRows st rows [] of
             (st', els) \<Rightarrow> renderGroups gs st' (p\<lparr>containers := (containers p)(g \<mapsto> els)\<rparr>)))"

text \<open>
  \<open>show\<close> (lines 126-146). The version (\<open>Utils.getCurrentVersion()\<close>), the catalogue
  and the binding table just read from the session storage, with the store of its key
  arrays, are parameters. \<open>DomUtils.simulateClick\<close> changes nothing of the state above.
\<close>

definition HelpDialogPage_show ::
  "jsstring \<Rightarrow> command list \<Rightarrow> bindings \<Rightarrow> store \<Rightarrow> page \<Rightarrow> error option \<times> store \<times> page" where
  "HelpDialogPage_show version allCommands commandToOptionsToKeys st p =
     (let p1 = p\<lparr>vimium_version := version\<rparr>;
          rowsByGroup = getRowsForDialog allCommands commandToOptionsToKeys
      in case renderGroups (entries rowsByGroup) st p1 of
           (Some e, st', p2) \<Rightarrow> (Some e, st', p2)
         | (None, st', p2) \<Rightarrow>
             (case showAdvancedCommands (getShowAdvancedCommands p2) p2 of
                (e, p3) \<Rightarrow> (e, st', p3)))"

text \<open>
  The message handler registered by \<open>init\<close> (lines 180-203), from the point where
  the two awaited initialisations (\<open>Settings.onLoaded\<close>, \<open>Utils.populateBrowserInfo\<close>)
  have completed. \<open>event.data.name\<close> is \<open>Some\<close> string, or \<open>None\<close> when it is not a
  string; the \<open>switch\<close> compares it with \<open>===\<close>, case by case in the order of the
  source.
\<close>

datatype switch_case = Case_hide | Case_show | Case_hidden | Case_default

definition switch_name :: "jsstring option \<Rightarrow> switch_case" where
  "switch_name n =
     (if n = Some (js ''hide'') then Case_hide
      else if n = Some (js ''show'') then Case_show
      else if n = Some (js ''hidden'') then Case_hidden
      else Case_default)"

text \<open>
  Modelled from the spec: \<open>Utils.assert\<close> (of \<open>lib/utils.js\<close>): a failed assertion is
  fatal, the caller ends with the error.
\<close>

definition Utils_assert :: "bool \<Rightarrow> error option" where
  "Utils_assert expression = (if expression then None else Some AssertionFailed)"

text \<open>
  The body of the handler. \<open>Mode.setIndicator\<close> and \<open>HUD.abandon\<close> belong to other
  modules and change nothing of the state above.
\<close>

definition handler ::
  "jsstring \<Rightarrow> command list \<Rightarrow> bindings \<Rightarrow> store \<Rightarrow> jsstring option \<Rightarrow> page
     \<Rightarrow> error option \<times> store \<times> page" where
  "handler version allCommands commandToOptionsToKeys st n p =
     (case switch_name n of
        Case_hide \<Rightarrow> (None, st, HelpDialogPage_hide p)
      | Case_show \<Rightarrow>
          HelpDialogPage_show version allCommands commandToOptionsToKeys st
            (HelpDialogPage_init p)
      | Case_hidden \<Rightarrow> (None, st, p)
      | Case_default \<Rightarrow> (Utils_assert False, st, p))"

section \<open>Example data\<close>

text \<open>
  The data the examples below are evaluated on: entries of the catalogue (the last one
  has no \<open>group\<close> field), binding tables with the store of their key arrays, a page
  before \<open>init\<close> whose document has the containers of two groups, and a layout.
\<close>

definition scrollDown :: command where
  "scrollDown = \<lparr>name = js ''scrollDown'', desc = js ''Scroll down'',
      group = Some (js ''navigation''), advanced = False\<rparr>"

definition scrollUp :: command where
  "scrollUp = \<lparr>name = js ''scrollUp'', desc = js ''Scroll up'',
      group = Some (js ''navigation''), advanced = False\<rparr>"

definition reload :: command where
  "reload = \<lparr>name = js ''reload'', desc = js ''Reload the page'',
      group = Some (js ''misc''), advanced = False\<rparr>"

definition openLink :: command where
  "openLink = \<lparr>name = js ''LinkHints.activateModeToOpenInNewForegroundTab'',
      desc = js ''Open a link in a new tab & switch to it'',
      group = Some (js ''navigation''), advanced = False\<rparr>"


definition bindings1 :: bindings where
  "bindings1 = [(js ''scrollUp'', [(js '''', 0)])]"


definition bindings3 :: bindings where
  "bindings3 = [(js ''scrollDown'', [(js '''', 0)])]"

definition store3 :: store where
  "store3 = (\<lambda>r. [])(0 := [js ''<Down>'', js ''j''])"

definition page0 :: page where
  "page0 = \<lparr>dialogElement = False, listeners = 0, vimium_version = [],
     containers = map_of [(js ''navigation'', []), (js ''misc'', [])],
     toggle_caption = js ''Show advanced commands'', classList = {}, scrollTop = 0,
     settings = (\<lambda>key. False), posted = []\<rparr>"

definition layout0 :: "page \<Rightarrow> int" where
  "layout0 p = (if js ''show-advanced'' \<in> classList p then 900 else 600)"

section \<open>Properties of the string helpers\<close>

lemma js_lt: "js ''<'' = [60]"
  by (simp add: js_def)

lemma js_tilde: "js ''~'' = [126]"
  by (simp add: js_def)

lemma js_dots: "js ''...'' = [46, 46, 46]"
  by (simp add: js_def)

lemma startsWith_iff: "startsWith s pat \<longleftrightarrow> (\<exists>r. s = pat @ r)"
  unfolding startsWith_def
  by (metis append_eq_conv_conj append_take_drop_id)

text \<open>\<open>includes_js\<close> is the substring relation.\<close>

lemma includes_js_iff: "includes_js s pat \<longleftrightarrow> (\<exists>p r. s = p @ pat @ r)"
proof (induction s)
  case Nil
  then show ?case by auto
next
  case (Cons c s)
  show ?case
  proof
    assume "includes_js (c # s) pat"
    then consider "startsWith (c # s) pat" | "includes_js s pat" by auto
    then show "\<exists>p r. c # s = p @ pat @ r"
    proof cases
      case 1
      then obtain r where "c # s = pat @ r" by (auto simp: startsWith_iff)
      then have "c # s = [] @ pat @ r" by simp
      then show ?thesis by blast
    next
      case 2
      then obtain p r where "s = p @ pat @ r" using Cons.IH by auto
      then have "c # s = (c # p) @ pat @ r" by simp
      then show ?thesis by blast
    qed
  next
    assume "\<exists>p r. c # s = p @ pat @ r"
    then obtain p r where e: "c # s = p @ pat @ r" by auto
    show "includes_js (c # s) pat"
    proof (cases p)
      case Nil
      then have "startsWith (c # s) pat" using e by (simp add: startsWith_iff)
      then show ?thesis by simp
    next
      case (Cons a p')
      then have "s = p' @ pat @ r" using e by simp
      then show ?thesis using Cons.IH by auto
    qed
  qed
qed

lemma includes_js_single: "includes_js s [c] \<longleftrightarrow> c \<in> set s"
  by (induction s) (auto simp: startsWith_def)

text \<open>Replacing a one-unit pattern: only the first occurrence changes.\<close>

lemma replace_single_absent: "c \<notin> set s \<Longrightarrow> replace s [c] rep = s"
  by (induction s) (auto simp: startsWith_def)

lemma replace_single_first: "c \<notin> set p \<Longrightarrow> replace (p @ c # r) [c] rep = p @ rep @ r"
  by (induction p) (auto simp: startsWith_def)

lemma substring_zero: "0 \<le> k \<Longrightarrow> substring s 0 k = take (nat k) s"
  by (auto simp: substring_def Let_def min_def max_def)

lemma ellipsize_cases:
  "ellipsize s n = (if int (length s) \<le> n then s else take (nat (n - 3)) s @ js ''...'')"
  by (auto simp: ellipsize_def ellipsis_def substring_zero js_dots max_def)

section \<open>ellipsize\<close>

text \<open>
  C1, as the claim states it, fails for a budget below 3: \<open>ellipsize("abcd", 2)\<close> is
  \<open>"..."\<close>, of length 3 and not 2. \<open>Math.max(0, maxLength - 3)\<close> keeps no character of
  the string there and the ellipsis alone is longer than the budget.
\<close>

theorem ellipsize_short_budget_counterexample:
  "2 < int (length (js ''abcd'')) \<and> length (ellipsize (js ''abcd'') 2) = 3 \<and>
   ellipsize (js ''abcd'') 2 = js ''...''"
  by (simp add: ellipsize_cases js_def)

text \<open>
  C1 (amended): for every string \<open>s\<close> and every integer \<open>n\<close>, if \<open>length s \<le> n\<close> then
  \<open>ellipsize s n = s\<close>; otherwise the result ends with \<open>"..."\<close>, and when \<open>n \<ge> 3\<close> it is
  the first \<open>n - 3\<close> code units of \<open>s\<close> followed by \<open>"..."\<close> and has length exactly
  \<open>n\<close>, while for \<open>n < 3\<close> it is \<open>"..."\<close> alone.
\<close>

theorem ellipsize_lengths:
  "(int (length s) \<le> n \<longrightarrow> ellipsize s n = s) \<and>
   (n < int (length s) \<longrightarrow>
      (\<exists>p. ellipsize s n = p @ js ''...'') \<and>
      (3 \<le> n \<longrightarrow>
         ellipsize s n = take (nat (n - 3)) s @ js ''...'' \<and>
         int (length (ellipsize s n)) = n) \<and>
      (n < 3 \<longrightarrow> ellipsize s n = js ''...''))"
  by (auto simp: ellipsize_cases js_dots)

theorem ellipsize_lengths_witness:
  "ellipsize (js ''ab'') 5 = js ''ab'' \<and>
   ellipsize (js ''abcdefgh'') 5 = js ''ab...'' \<and>
   int (length (ellipsize (js ''abcdefgh'') 5)) = 5 \<and>
   ellipsize (js ''abcdefgh'') 2 = js ''...''"
  using ellipsize_lengths [of "js ''ab''" 5] ellipsize_lengths [of "js ''abcdefgh''" 5]
    ellipsize_lengths [of "js ''abcdefgh''" 2]
  by (simp add: js_def)

section \<open>isAdvancedCommand\<close>

text \<open>
  C5: \<open>isAdvancedCommand command options\<close> is true when the command is marked advanced,
  whatever the options; otherwise it is true exactly when the command's name is
  \<open>"reload"\<close> and \<open>"hard"\<close> is a substring of the options; so it is false for every
  other unmarked command.
\<close>

theorem isAdvancedCommand_spec:
  "isAdvancedCommand command options =
     (advanced command \<or>
      (name command = js ''reload'' \<and> (\<exists>p r. options = p @ js ''hard'' @ r)))"
  by (simp add: isAdvancedCommand_def includes_js_iff)

theorem isAdvancedCommand_spec_witness:
  "isAdvancedCommand \<lparr>name = js ''reload'', desc = js ''Reload the page'',
      group = Some (js ''navigation''), advanced = False\<rparr> (js ''nohard-ish-but-no-match'') \<and>
   \<not> isAdvancedCommand \<lparr>name = js ''reload'', desc = js ''Reload the page'',
      group = Some (js ''navigation''), advanced = False\<rparr> (js '''') \<and>
   \<not> isAdvancedCommand \<lparr>name = js ''scrollDown'', desc = js ''Scroll down'',
      group = Some (js ''navigation''), advanced = False\<rparr> (js ''hard'') \<and>
   isAdvancedCommand \<lparr>name = js ''scrollDown'', desc = js ''Scroll down'',
      group = Some (js ''navigation''), advanced = True\<rparr> (js '''')"
proof -
  let ?reload = "\<lparr>name = js ''reload'', desc = js ''Reload the page'',
      group = Some (js ''navigation''), advanced = False\<rparr>"
  have "js ''nohard-ish-but-no-match'' = js ''no'' @ js ''hard'' @ js ''-ish-but-no-match''"
    by (simp add: js_def)
  then have 1: "isAdvancedCommand ?reload (js ''nohard-ish-but-no-match'')"
    using isAdvancedCommand_spec [of ?reload "js ''nohard-ish-but-no-match''"] by auto
  have 2: "\<not> isAdvancedCommand ?reload (js '''')"
    using isAdvancedCommand_spec [of ?reload "js ''''"] by (simp add: js_def)
  have 3: "\<not> isAdvancedCommand \<lparr>name = js ''scrollDown'', desc = js ''Scroll down'',
      group = Some (js ''navigation''), advanced = False\<rparr> (js ''hard'')"
    using isAdvancedCommand_spec [of "\<lparr>name = js ''scrollDown'', desc = js ''Scroll down'',
      group = Some (js ''navigation''), advanced = False\<rparr>" "js ''hard''"]
    by (simp add: js_def)
  have 4: "isAdvancedCommand \<lparr>name = js ''scrollDown'', desc = js ''Scroll down'',
      group = Some (js ''navigation''), advanced = True\<rparr> (js '''')"
    using isAdvancedCommand_spec [of "\<lparr>name = js ''scrollDown'', desc = js ''Scroll down'',
      group = Some (js ''navigation''), advanced = True\<rparr>" "js ''''"]
    by simp
  show ?thesis using 1 2 3 4 by blast
qed

section \<open>compareKeys\<close>

lemma compareKeys_alt:
  "compareKeys a b =
     (if replace a [60] [126] < replace b [60] [126] then - 1
      else if replace b [60] [126] < replace a [60] [126] then 1 else 0)"
  by (simp add: compareKeys_def js_lt js_tilde Let_def)


lemma append_less_append: "(p @ xs < p @ ys) = (xs < (ys :: 'a::linorder list))"
  by (induction p) auto

text \<open>
  C2, as the claim states it, fails: \<open>"a<c-x>"\<close> contains the marker and \<open>"b"\<close> does
  not, yet \<open>"a<c-x>"\<close> sorts first, because the labels already differ before the marker.
\<close>

theorem compareKeys_marker_counterexample:
  "includes_js (js ''a<c-x>'') (js ''<'') \<and> \<not> includes_js (js ''b'') (js ''<'') \<and>
   compareKeys (js ''a<c-x>'') (js ''b'') = - 1"
  by (simp add: compareKeys_def js_def startsWith_def)

text \<open>
  C2 (amended): all else equal, the marker sorts last. If two labels agree on a prefix
  \<open>p\<close> without marker, after which the first has the marker \<open>"<"\<close> and the second, which
  has no marker at all, either ends or goes on with a code unit below \<open>"~"\<close> (as every
  letter and digit is), then \<open>compareKeys\<close> puts the first after the second.
\<close>

theorem compareKeys_marker_after_common_prefix:
  assumes "\<not> includes_js p (js ''<'')" and "\<not> includes_js s (js ''<'')"
    and "s = [] \<or> [hd s] < js ''~''"
  shows "compareKeys (p @ js ''<'' @ r) (p @ s) = 1"
proof -
  have p: "60 \<notin> set p" and s: "60 \<notin> set s"
    using assms(1,2) by (simp_all add: js_lt includes_js_single)
  have a: "replace (p @ js ''<'' @ r) [60] [126] = p @ 126 # r"
    using replace_single_first [OF p, of r "[126]"] by (simp add: js_lt)
  have b: "replace (p @ s) [60] [126] = p @ s"
    using p s by (simp add: replace_single_absent)
  have "s < 126 # r"
    using assms(3) by (cases s) (auto simp: js_tilde)
  then have "p @ s < p @ 126 # r" by (simp add: append_less_append)
  then show ?thesis
    unfolding compareKeys_alt a b by (simp add: not_less_iff_gr_or_eq)
qed

theorem compareKeys_marker_after_common_prefix_witness:
  "\<not> includes_js (js ''g'') (js ''<'') \<and> \<not> includes_js (js ''j'') (js ''<'') \<and>
   [hd (js ''j'')] < js ''~'' \<and>
   compareKeys (js ''g<Down>'') (js ''gj'') = 1"
proof -
  have 1: "\<not> includes_js (js ''g'') (js ''<'')" by (simp add: js_def startsWith_def)
  have 2: "\<not> includes_js (js ''j'') (js ''<'')" by (simp add: js_def startsWith_def)
  have 3: "[hd (js ''j'')] < js ''~''" by (simp add: js_def)
  have 4: "js ''j'' = [] \<or> [hd (js ''j'')] < js ''~''" using 3 by simp
  have "compareKeys (js ''g'' @ js ''<'' @ js ''Down>'') (js ''g'' @ js ''j'') = 1"
    using compareKeys_marker_after_common_prefix [OF 1 2 4] .
  then show ?thesis using 1 2 3 by (simp add: js_def)
qed



section \<open>Rows of the dialog: getRowsForDialog\<close>

lemma set_entries: "set (entries obj) = set obj"
  by (auto simp: entries_def)

lemma mset_entries: "mset (entries obj) = mset obj"
  by (simp add: entries_def)

lemma distinct_keys_entries:
  "distinct (map fst obj) \<Longrightarrow> distinct (map fst (entries obj))"
proof -
  assume "distinct (map fst obj)"
  moreover have "mset (map fst (entries obj)) = mset (map fst obj)"
    using mset_entries [of obj] by (metis mset_map)
  ultimately show ?thesis by (metis mset_eq_imp_distinct_iff)
qed

lemma map_fst_add_to_group:
  "map fst (add_to_group k x gs) =
     (if k \<in> set (map fst gs) then map fst gs else map fst gs @ [k])"
  by (induction gs) force+


lemma distinct_add_to_group:
  "distinct (map fst gs) \<Longrightarrow> distinct (map fst (add_to_group k x gs))"
  unfolding map_fst_add_to_group by simp

lemma map_of_add_to_group:
  "map_of (add_to_group k x gs) k' =
     (if k' = k then Some ((case map_of gs k of None \<Rightarrow> [] | Some xs \<Rightarrow> xs) @ [x])
      else map_of gs k')"
  by (induction gs) auto

lemma groupBy_snoc: "groupBy (items @ [x]) f = add_to_group (f x) x (groupBy items f)"
  by (simp add: groupBy_def)


lemma distinct_groupBy: "distinct (map fst (groupBy items f))"
  by (induction items rule: rev_induct) (auto simp: groupBy_snoc distinct_add_to_group groupBy_def)

lemma map_of_groupBy:
  "map_of (groupBy items f) k =
     (if k \<in> f ` set items then Some (filter (\<lambda>x. f x = k) items) else None)"
proof (induction items arbitrary: k rule: rev_induct)
  case Nil
  then show ?case by (simp add: groupBy_def)
next
  case (snoc x items)
  have none: "f x \<notin> f ` set items \<Longrightarrow> filter (\<lambda>y. f y = f x) items = []"
    by (induction items) auto
  show ?case
    by (auto simp: groupBy_snoc map_of_add_to_group snoc.IH none)
qed

lemma pushVariations_eq:
  "pushVariations list command variations =
     list @ map (\<lambda>(options, keys). (command, options, keys)) (entries variations)"
proof -
  have "foldl (\<lambda>list (options, keys). list @ [(command, options, keys)]) list es =
        list @ map (\<lambda>(options, keys). (command, options, keys)) es" for es
    by (induction es arbitrary: list) (auto split: prod.splits)
  then show ?thesis by (simp add: pushVariations_def)
qed

lemma rowsOfGroup_eq:
  "rowsOfGroup t commands =
     concat (map (\<lambda>command. map (\<lambda>(options, keys). (command, options, keys))
                               (entries (variationsOf t command))) commands)"
proof -
  have "foldl (\<lambda>list command. pushVariations list command (variationsOf t command)) acc cs =
        acc @ concat (map (\<lambda>command. map (\<lambda>(options, keys). (command, options, keys))
                               (entries (variationsOf t command))) cs)" for acc cs
    by (induction cs arbitrary: acc) (auto simp: pushVariations_eq)
  from this [of "[]"] show ?thesis by (simp add: rowsOfGroup_def)
qed

lemma obj_set_new: "k \<notin> fst ` set obj \<Longrightarrow> obj_set obj k v = obj @ [(k, v)]"
  by (induction obj) auto

lemma fold_obj_set:
  "distinct (map fst xs) \<Longrightarrow> fst ` set acc \<inter> fst ` set xs = {} \<Longrightarrow>
   foldl (\<lambda>result (g, cs). obj_set result g (F cs)) acc xs = acc @ map (\<lambda>(g, cs). (g, F cs)) xs"
proof (induction xs arbitrary: acc)
  case Nil
  then show ?case by simp
next
  case (Cons x xs)
  obtain g cs where x: "x = (g, cs)" by (cases x)
  have new: "g \<notin> fst ` set acc" using Cons.prems(2) x by auto
  have d: "distinct (map fst xs)" using Cons.prems(1) by simp
  have disj: "fst ` set (acc @ [(g, F cs)]) \<inter> fst ` set xs = {}"
    using Cons.prems x by auto
  show ?case
    using Cons.IH [OF d disj] new x by (simp add: obj_set_new)
qed

lemma getRowsForDialog_eq:
  "getRowsForDialog allCommands t =
     map (\<lambda>(g, cs). (g, rowsOfGroup t cs)) (entries (groupBy allCommands groupKey))"
proof -
  have "distinct (map fst (entries (groupBy allCommands groupKey)))"
    by (simp add: distinct_keys_entries distinct_groupBy)
  from fold_obj_set [OF this, of "[]" "rowsOfGroup t"] show ?thesis
    by (simp add: getRowsForDialog_def)
qed



lemma in_getRowsForDialog_iff:
  "(g, rows) \<in> set (getRowsForDialog allCommands t) \<longleftrightarrow>
     g \<in> groupKey ` set allCommands \<and>
     rows = rowsOfGroup t (filter (\<lambda>c. groupKey c = g) allCommands)"
proof -
  have "(g, rows) \<in> set (getRowsForDialog allCommands t) \<longleftrightarrow>
        (\<exists>cs. (g, cs) \<in> set (groupBy allCommands groupKey) \<and> rows = rowsOfGroup t cs)"
    unfolding getRowsForDialog_eq by (force simp: set_entries)
  also have "\<dots> \<longleftrightarrow> (\<exists>cs. map_of (groupBy allCommands groupKey) g = Some cs \<and> rows = rowsOfGroup t cs)"
    using distinct_groupBy [of allCommands groupKey] by (auto)
  also have "\<dots> \<longleftrightarrow> g \<in> groupKey ` set allCommands \<and>
     rows = rowsOfGroup t (filter (\<lambda>c. groupKey c = g) allCommands)"
    unfolding map_of_groupBy by auto
  finally show ?thesis .
qed


lemma in_rowsOfGroup_iff:
  "(c, options, keys) \<in> set (rowsOfGroup t commands) \<longleftrightarrow>
     c \<in> set commands \<and> (options, keys) \<in> set (variationsOf t c)"
  unfolding rowsOfGroup_eq by (auto simp: set_entries)

text \<open>
  C4: a command whose name is absent from the binding table gets no row: no row of any
  group's list carries a command of that name, whatever the catalogue.
\<close>

theorem getRowsForDialog_omits_unbound:
  assumes "obj_get t (name c) = None"
  shows "\<forall>g rows c' options keys.
           (g, rows) \<in> set (getRowsForDialog allCommands t) \<longrightarrow>
           (c', options, keys) \<in> set rows \<longrightarrow> name c' \<noteq> name c"
proof (intro allI impI)
  fix g rows c' options keys
  assume "(g, rows) \<in> set (getRowsForDialog allCommands t)"
    and r: "(c', options, keys) \<in> set rows"
  then have "rows = rowsOfGroup t (filter (\<lambda>c. groupKey c = g) allCommands)"
    by (simp add: in_getRowsForDialog_iff)
  with r have "(options, keys) \<in> set (variationsOf t c')"
    by (simp add: in_rowsOfGroup_iff)
  then have "obj_get t (name c') \<noteq> None"
    by (cases "obj_get t (name c')") (simp_all add: variationsOf_def)
  with assms show "name c' \<noteq> name c" by auto
qed

lemma rows_example1:
  "getRowsForDialog [scrollDown, scrollUp] bindings1 =
     [(js ''navigation'', [(scrollUp, js '''', 0)])]"
  by (simp add: getRowsForDialog_def groupBy_def groupKey_def scrollDown_def scrollUp_def
      entries_def arrayIndex_def digit_def rowsOfGroup_def pushVariations_def variationsOf_def obj_get_def
      js_def bindings1_def)

text \<open>
  With \<open>scrollUp\<close> bound and \<open>scrollDown\<close> not, the only row is the one of \<open>scrollUp\<close>.
\<close>

theorem getRowsForDialog_omits_unbound_witness:
  "obj_get bindings1 (name scrollDown) = None \<and>
   (js ''navigation'', [(scrollUp, js '''', 0)])
     \<in> set (getRowsForDialog [scrollDown, scrollUp] bindings1) \<and>
   name scrollUp \<noteq> name scrollDown"
proof -
  let ?t = "bindings1"
  have 1: "obj_get ?t (name scrollDown) = None"
    by (simp add: obj_get_def scrollDown_def js_def bindings1_def)
  have 2: "(js ''navigation'', [(scrollUp, js '''', 0)])
      \<in> set (getRowsForDialog [scrollDown, scrollUp] ?t)"
    by (simp add: rows_example1)
  have 3: "(scrollUp, js '''', 0) \<in> set [(scrollUp, js '''', 0::nat)]" by simp
  have "name scrollUp \<noteq> name scrollDown"
    using getRowsForDialog_omits_unbound [OF 1, of "[scrollDown, scrollUp]"] 2 3 by blast
  with 1 2 show ?thesis by blast
qed




section \<open>Row labels: getRowEl\<close>

lemma ellipsize_changed_iff:
  "ellipsize options b \<noteq> options \<longleftrightarrow> b < int (length options) \<and> options \<noteq> js ''...''"
proof (cases "int (length options) \<le> b")
  case True
  then show ?thesis by (simp add: ellipsize_cases)
next
  case False
  show ?thesis
  proof (cases "3 \<le> b")
    case True
    with False have "int (length (ellipsize options b)) = b"
      by (auto simp: ellipsize_cases js_dots)
    with False True show ?thesis by (auto simp: js_dots)
  next
    case b: False
    with False have "ellipsize options b = js ''...''"
      by (simp add: ellipsize_cases)
    with False show ?thesis by auto
  qed
qed

lemma ellipsize_fits:
  "3 \<le> b \<Longrightarrow> int (length (ellipsize options b)) \<le> b"
  by (auto simp: ellipsize_cases js_dots)

text \<open>
  C6, as the claim states it, fails for a long description: with the 39 code units of
  \<open>"Open a link in a new tab & switch to it"\<close> the budget for the options is 1, the
  options are shown as \<open>"..."\<close>, and description plus shown options take 42 code units,
  more than 40.
\<close>

theorem getRowEl_label_counterexample:
  "help_description (snd (getRowEl (\<lambda>r. []) openLink (js ''action=focus'') 0)) =
     js ''Open a link in a new tab & switch to it (...)'' \<and>
   ellipsize (js ''action=focus'') (40 - int (length (desc openLink))) = js ''...'' \<and>
   40 < length (desc openLink) + length (ellipsize (js ''action=focus'') (40 - int (length (desc openLink))))"
  by (simp add: getRowEl_def Let_def openLink_def ellipsize_cases js_def)

text \<open>
  C6 (amended): for non-empty options the label is the description followed by
  \<open>ellipsize options (40 - length desc)\<close> in parentheses; the title, the description
  followed by the full options in parentheses, is set exactly when the shown options
  differ from the options, that is when the options are longer than the budget and are
  not \<open>"..."\<close> themselves; description plus shown options fit in 40 code units whenever
  the description has at most 37. For empty options the label is the description and no
  title is set.
\<close>

theorem getRowEl_label:
  "(options \<noteq> [] \<longrightarrow>
      help_description (snd (getRowEl st command options keys)) =
        desc command @ js '' ('' @ ellipsize options (40 - int (length (desc command))) @ js '')'' \<and>
      title (snd (getRowEl st command options keys)) =
        (if ellipsize options (40 - int (length (desc command))) \<noteq> options
         then Some (desc command @ js '' ('' @ options @ js '')'') else None) \<and>
      ((ellipsize options (40 - int (length (desc command))) \<noteq> options) =
         (40 - int (length (desc command)) < int (length options) \<and> options \<noteq> js ''...'')) \<and>
      (length (desc command) \<le> 37 \<longrightarrow>
         length (desc command) + length (ellipsize options (40 - int (length (desc command)))) \<le> 40)) \<and>
   (options = [] \<longrightarrow>
      help_description (snd (getRowEl st command options keys)) = desc command \<and>
      title (snd (getRowEl st command options keys)) = None)"
proof -
  have fit: "length (desc command) \<le> 37 \<Longrightarrow>
      length (desc command) + length (ellipsize options (40 - int (length (desc command)))) \<le> 40"
    using ellipsize_fits [of "40 - int (length (desc command))" options] by simp
  show ?thesis
    using fit ellipsize_changed_iff [of options "40 - int (length (desc command))"]
    by (simp add: getRowEl_def Let_def)
qed

theorem getRowEl_label_witness:
  "help_description (snd (getRowEl (\<lambda>r. []) reload (js ''hard'') 0)) = js ''Reload the page (hard)'' \<and>
   title (snd (getRowEl (\<lambda>r. []) reload (js ''hard'') 0)) = None \<and>
   help_description (snd (getRowEl (\<lambda>r. []) reload (js ''hard bypassCache=true later'') 0)) =
     js ''Reload the page (hard bypassCache=true ...)'' \<and>
   title (snd (getRowEl (\<lambda>r. []) reload (js ''hard bypassCache=true later'') 0)) =
     Some (js ''Reload the page (hard bypassCache=true later)'') \<and>
   length (desc reload) + length (ellipsize (js ''hard bypassCache=true later'') (40 - int (length (desc reload)))) \<le> 40 \<and>
   help_description (snd (getRowEl (\<lambda>r. []) reload (js '''') 0)) = js ''Reload the page'' \<and>
   title (snd (getRowEl (\<lambda>r. []) reload (js '''') 0)) = None"
proof -
  have e1: "ellipsize (js ''hard'') (40 - int (length (desc reload))) = js ''hard''"
    by (simp add: ellipsize_cases reload_def js_def)
  have e2: "ellipsize (js ''hard bypassCache=true later'') (40 - int (length (desc reload)))
      = js ''hard bypassCache=true ...''"
    by (simp add: ellipsize_cases reload_def js_def)
  have d: "length (desc reload) \<le> 37" by (simp add: reload_def js_def)
  have n1: "js ''hard'' \<noteq> []" and n2: "js ''hard bypassCache=true later'' \<noteq> []"
    and n3: "js ''hard bypassCache=true ...'' \<noteq> js ''hard bypassCache=true later''"
    by (simp_all add: js_def)
  note a = getRowEl_label [of "js ''hard''" "\<lambda>r. []" reload 0]
  note b = getRowEl_label [of "js ''hard bypassCache=true later''" "\<lambda>r. []" reload 0]
  note c = getRowEl_label [of "js ''''" "\<lambda>r. []" reload 0]
  have 1: "help_description (snd (getRowEl (\<lambda>r. []) reload (js ''hard'') 0)) = js ''Reload the page (hard)''"
    using a n1 unfolding e1 by (simp add: reload_def js_def)
  have 2: "title (snd (getRowEl (\<lambda>r. []) reload (js ''hard'') 0)) = None"
    using a n1 unfolding e1 by simp
  have 3: "help_description (snd (getRowEl (\<lambda>r. []) reload (js ''hard bypassCache=true later'') 0)) =
     js ''Reload the page (hard bypassCache=true ...)''"
    using b n2 unfolding e2 by (simp add: reload_def js_def)
  have 4: "title (snd (getRowEl (\<lambda>r. []) reload (js ''hard bypassCache=true later'') 0)) =
     Some (js ''Reload the page (hard bypassCache=true later)'')"
    using b n2 n3 unfolding e2 by (simp add: reload_def js_def)
  have 5: "length (desc reload) + length (ellipsize (js ''hard bypassCache=true later'') (40 - int (length (desc reload)))) \<le> 40"
    using b n2 d by blast
  have 6: "help_description (snd (getRowEl (\<lambda>r. []) reload (js '''') 0)) = js ''Reload the page''"
    using c by (simp add: reload_def js_def)
  have 7: "title (snd (getRowEl (\<lambda>r. []) reload (js '''') 0)) = None"
    using c by (simp add: js_def)
  show ?thesis using 1 2 3 4 5 6 7 by blast
qed

section \<open>The key arrays: sorting in place\<close>
















section \<open>Advanced commands\<close>

lemma renderGroups_frame:
  "renderGroups gs st p = (e, st', p') \<Longrightarrow>
     dialogElement p' = dialogElement p \<and> settings p' = settings p \<and>
     classList p' = classList p \<and> toggle_caption p' = toggle_caption p \<and>
     e \<noteq> Some AssertionFailed"
proof (induction gs arbitrary: st p)
  case Nil
  then show ?case by auto
next
  case (Cons grp gs)
  obtain g rows where grp: "grp = (g, rows)" by (cases grp)
  show ?case
  proof (cases "dialogElement p \<and> containers p g \<noteq> None")
    case False
    then have "renderGroups (grp # gs) st p = (Some TypeError, st, p)"
      using grp by (auto split: option.splits)
    with Cons.prems have "e = Some TypeError" "p' = p" by simp_all
    then show ?thesis by simp
  next
    case True
    obtain st1 els where rr: "renderRows st rows [] = (st1, els)"
      by (cases "renderRows st rows []")
    have "renderGroups gs st1 (p\<lparr>containers := (containers p)(g \<mapsto> els)\<rparr>) = (e, st', p')"
      using Cons.prems True grp rr by auto
    from Cons.IH [OF this] show ?thesis by simp
  qed
qed

lemma showAdvancedCommands_ok:
  "dialogElement p \<Longrightarrow>
   showAdvancedCommands visible p =
     (None, p\<lparr>toggle_caption := (if visible then js ''Hide advanced commands''
                                   else js ''Show advanced commands''),
              classList := (if visible then insert (js ''show-advanced'') (classList p)
                            else classList p - {js ''show-advanced''})\<rparr>)"
  by (simp add: showAdvancedCommands_def Let_def)

lemma showAdvancedCommands_error:
  "fst (showAdvancedCommands visible p) \<noteq> Some AssertionFailed"
  by (simp add: showAdvancedCommands_def Let_def)

text \<open>What \<open>show\<close> leaves behind: class and caption agree with the setting.\<close>

lemma show_establishes_advanced_state:
  assumes "HelpDialogPage_show version allCommands t st p = (None, st', p')"
  shows "dialogElement p' \<and> settings p' = settings p \<and>
     (js ''show-advanced'' \<in> classList p') = getShowAdvancedCommands p' \<and>
     toggle_caption p' = (if getShowAdvancedCommands p' then js ''Hide advanced commands''
                          else js ''Show advanced commands'')"
proof -
  obtain e1 st1 p1 where rg:
    "renderGroups (entries (getRowsForDialog allCommands t)) st (p\<lparr>vimium_version := version\<rparr>)
       = (e1, st1, p1)"
    by (metis prod_cases3)
  have e1: "e1 = None"
    using assms rg by (cases e1) (simp_all add: HelpDialogPage_show_def Let_def)
  have sa: "showAdvancedCommands (getShowAdvancedCommands p1) p1 = (None, p')"
    using assms rg e1 by (simp add: HelpDialogPage_show_def Let_def split: prod.splits)
  have f: "settings p1 = settings p" using renderGroups_frame [OF rg] by simp
  have d: "dialogElement p1"
  proof (rule ccontr)
    assume "\<not> dialogElement p1"
    then have "fst (showAdvancedCommands (getShowAdvancedCommands p1) p1) = Some TypeError"
      by (simp add: showAdvancedCommands_def Let_def)
    with sa show False by simp
  qed
  have p': "p' = p1\<lparr>toggle_caption := (if getShowAdvancedCommands p1 then js ''Hide advanced commands''
                                   else js ''Show advanced commands''),
              classList := (if getShowAdvancedCommands p1 then insert (js ''show-advanced'') (classList p1)
                            else classList p1 - {js ''show-advanced''})\<rparr>"
    using sa showAdvancedCommands_ok [OF d, of "getShowAdvancedCommands p1"] by simp
  show ?thesis
    unfolding p' using d f by (simp add: getShowAdvancedCommands_def Settings_get_def)
qed

text \<open>
  C7: on a page whose dialog element is set and whose class \<open>show-advanced\<close> and
  toggle caption reflect the setting (what \<open>show\<close> leaves behind, see
  \<open>show_establishes_advanced_state\<close>, and what each toggle keeps, see
  \<open>toggleAdvancedCommands_keeps_advanced_state\<close> below), whatever the value of the
  setting: two calls of \<open>toggleAdvancedCommands\<close> both complete, the first flips the
  setting, and after the second the settings store, the class list and the caption are
  what they were.
\<close>

theorem toggleAdvancedCommands_twice:
  assumes "dialogElement p"
    and "(js ''show-advanced'' \<in> classList p) = getShowAdvancedCommands p"
    and "toggle_caption p = (if getShowAdvancedCommands p then js ''Hide advanced commands''
                             else js ''Show advanced commands'')"
  shows "\<exists>p1 p2.
           toggleAdvancedCommands scrollHeight p = (None, p1) \<and>
           toggleAdvancedCommands scrollHeight p1 = (None, p2) \<and>
           getShowAdvancedCommands p1 = (\<not> getShowAdvancedCommands p) \<and>
           getShowAdvancedCommands p2 = getShowAdvancedCommands p \<and>
           settings p2 = settings p \<and>
           classList p2 = classList p \<and>
           toggle_caption p2 = toggle_caption p"
proof -
  let ?k = "js ''helpDialog_showAdvancedCommands''"
  let ?b = "settings p ?k"
  define q1 where "q1 = p\<lparr>toggle_caption := (if \<not> ?b then js ''Hide advanced commands''
                                   else js ''Show advanced commands''),
              classList := (if \<not> ?b then insert (js ''show-advanced'') (classList p)
                            else classList p - {js ''show-advanced''}),
              settings := (settings p)(?k := \<not> ?b)\<rparr>"
  define p1 where "p1 = (if scrollHeight q1 - scrollHeight p > 0
      then q1\<lparr>scrollTop := scrollTop q1 + (scrollHeight q1 - scrollHeight p)\<rparr> else q1)"
  have tg1: "toggleAdvancedCommands scrollHeight p = (None, p1)"
    using assms(1)
    by (simp add: toggleAdvancedCommands_def showAdvancedCommands_ok getShowAdvancedCommands_def
        Settings_get_def Settings_set_def Let_def p1_def q1_def)
  have d1: "dialogElement p1" and s1: "settings p1 = (settings p)(?k := \<not> ?b)"
    and c1: "classList p1 = (if \<not> ?b then insert (js ''show-advanced'') (classList p)
                            else classList p - {js ''show-advanced''})"
    using assms(1) by (simp_all add: p1_def q1_def)
  define q2 where "q2 = p1\<lparr>toggle_caption := (if ?b then js ''Hide advanced commands''
                                   else js ''Show advanced commands''),
              classList := (if ?b then insert (js ''show-advanced'') (classList p1)
                            else classList p1 - {js ''show-advanced''}),
              settings := (settings p1)(?k := ?b)\<rparr>"
  define p2 where "p2 = (if scrollHeight q2 - scrollHeight p1 > 0
      then q2\<lparr>scrollTop := scrollTop q2 + (scrollHeight q2 - scrollHeight p1)\<rparr> else q2)"
  have tg2: "toggleAdvancedCommands scrollHeight p1 = (None, p2)"
    using d1 s1
    by (simp add: toggleAdvancedCommands_def showAdvancedCommands_ok getShowAdvancedCommands_def
        Settings_get_def Settings_set_def Let_def p2_def q2_def)
  have g1: "getShowAdvancedCommands p1 = (\<not> getShowAdvancedCommands p)"
    by (simp add: getShowAdvancedCommands_def Settings_get_def s1)
  have s2: "settings p2 = settings p"
    by (simp add: p2_def q2_def s1)
  have g2: "getShowAdvancedCommands p2 = getShowAdvancedCommands p"
    by (simp add: getShowAdvancedCommands_def Settings_get_def s2)
  have c2: "classList p2 = classList p"
    using assms(2) by (auto simp: p2_def q2_def c1 getShowAdvancedCommands_def Settings_get_def)
  have k2: "toggle_caption p2 = toggle_caption p"
    using assms(3) by (simp add: p2_def q2_def getShowAdvancedCommands_def Settings_get_def)
  show ?thesis using tg1 tg2 g1 g2 s2 c2 k2 by blast
qed

lemma toggleAdvancedCommands_keeps_advanced_state:
  assumes "dialogElement p"
  shows "\<exists>p1. toggleAdvancedCommands scrollHeight p = (None, p1) \<and> dialogElement p1 \<and>
     (js ''show-advanced'' \<in> classList p1) = getShowAdvancedCommands p1 \<and>
     toggle_caption p1 = (if getShowAdvancedCommands p1 then js ''Hide advanced commands''
                          else js ''Show advanced commands'')"
  using assms
  by (simp add: toggleAdvancedCommands_def showAdvancedCommands_ok getShowAdvancedCommands_def
        Settings_get_def Settings_set_def Let_def)

theorem toggleAdvancedCommands_twice_witness:
  "dialogElement (HelpDialogPage_init page0) \<and>
   \<not> getShowAdvancedCommands (HelpDialogPage_init page0) \<and>
   js ''show-advanced'' \<notin> classList (HelpDialogPage_init page0) \<and>
   toggle_caption (HelpDialogPage_init page0) = js ''Show advanced commands'' \<and>
   (\<exists>p1 p2.
      toggleAdvancedCommands layout0 (HelpDialogPage_init page0) = (None, p1) \<and>
      toggleAdvancedCommands layout0 p1 = (None, p2) \<and>
      getShowAdvancedCommands p1 \<and>
      settings p2 = settings (HelpDialogPage_init page0) \<and>
      classList p2 = classList (HelpDialogPage_init page0) \<and>
      toggle_caption p2 = toggle_caption (HelpDialogPage_init page0))"
proof -
  let ?p = "HelpDialogPage_init page0"
  have 1: "dialogElement ?p" by (simp add: HelpDialogPage_init_def page0_def)
  have 2: "\<not> getShowAdvancedCommands ?p"
    by (simp add: HelpDialogPage_init_def page0_def getShowAdvancedCommands_def Settings_get_def)
  have 3: "js ''show-advanced'' \<notin> classList ?p" by (simp add: HelpDialogPage_init_def page0_def)
  have 4: "toggle_caption ?p = js ''Show advanced commands''"
    by (simp add: HelpDialogPage_init_def page0_def)
  have h2: "(js ''show-advanced'' \<in> classList ?p) = getShowAdvancedCommands ?p"
    using 2 3 by simp
  have h3: "toggle_caption ?p = (if getShowAdvancedCommands ?p then js ''Hide advanced commands''
                             else js ''Show advanced commands'')"
    using 2 4 by simp
  from toggleAdvancedCommands_twice [OF 1 h2 h3, of layout0] 2
  have "\<exists>p1 p2.
      toggleAdvancedCommands layout0 ?p = (None, p1) \<and>
      toggleAdvancedCommands layout0 p1 = (None, p2) \<and>
      getShowAdvancedCommands p1 \<and>
      settings p2 = settings ?p \<and>
      classList p2 = classList ?p \<and>
      toggle_caption p2 = toggle_caption ?p"
    by blast
  with 1 2 3 4 show ?thesis by blast
qed

section \<open>The message handler\<close>

lemma show_error: "fst (HelpDialogPage_show version allCommands t st p) \<noteq> Some AssertionFailed"
proof -
  obtain e1 st1 p1 where rg:
    "renderGroups (entries (getRowsForDialog allCommands t)) st (p\<lparr>vimium_version := version\<rparr>)
       = (e1, st1, p1)"
    by (metis prod_cases3)
  have e1: "e1 \<noteq> Some AssertionFailed" using renderGroups_frame [OF rg] by simp
  show ?thesis
  proof (cases e1)
    case None
    obtain e2 p2 where sa: "showAdvancedCommands (getShowAdvancedCommands p1) p1 = (e2, p2)"
      by (cases "showAdvancedCommands (getShowAdvancedCommands p1) p1")
    have "e2 \<noteq> Some AssertionFailed"
      using showAdvancedCommands_error [of "getShowAdvancedCommands p1" p1] sa by simp
    then show ?thesis
      using rg None sa by (simp add: HelpDialogPage_show_def Let_def)
  next
    case (Some err)
    then show ?thesis
      using rg e1 by (simp add: HelpDialogPage_show_def Let_def)
  qed
qed

lemma switch_name_cases:
  "switch_name (Some (js ''hide'')) = Case_hide"
  "switch_name (Some (js ''show'')) = Case_show"
  "switch_name (Some (js ''hidden'')) = Case_hidden"
  by (simp_all add: switch_name_def js_def)

text \<open>
  C8: a message whose name is none of \<open>"show"\<close>, \<open>"hide"\<close>, \<open>"hidden"\<close> (or is
  not a string) takes the \<open>default\<close> case, the failed assertion, and the handler ends
  with it, page and store untouched; a message with one of the three names does not
  take that case and the handler does not end with a failed assertion.
\<close>

theorem handler_assertion_iff:
  "(n \<notin> {Some (js ''show''), Some (js ''hide''), Some (js ''hidden'')} \<longrightarrow>
      switch_name n = Case_default \<and>
      handler version allCommands t st n p = (Some AssertionFailed, st, p)) \<and>
   (n \<in> {Some (js ''show''), Some (js ''hide''), Some (js ''hidden'')} \<longrightarrow>
      switch_name n \<noteq> Case_default \<and>
      fst (handler version allCommands t st n p) \<noteq> Some AssertionFailed)"
proof (intro conjI impI)
  assume n: "n \<notin> {Some (js ''show''), Some (js ''hide''), Some (js ''hidden'')}"
  then show d: "switch_name n = Case_default" by (simp add: switch_name_def)
  then show "handler version allCommands t st n p = (Some AssertionFailed, st, p)"
    by (simp add: handler_def Utils_assert_def)
next
  assume n: "n \<in> {Some (js ''show''), Some (js ''hide''), Some (js ''hidden'')}"
  then consider "switch_name n = Case_hide" | "switch_name n = Case_show"
    | "switch_name n = Case_hidden"
    using switch_name_cases by auto
  then show "switch_name n \<noteq> Case_default" by cases simp_all
  from n consider "switch_name n = Case_hide" | "switch_name n = Case_show"
    | "switch_name n = Case_hidden"
    using switch_name_cases by auto
  then show "fst (handler version allCommands t st n p) \<noteq> Some AssertionFailed"
    by cases (simp_all add: handler_def show_error)
qed

theorem handler_assertion_iff_witness:
  "handler (js ''2.1.2'') [scrollDown, reload] bindings3 store3 (Some (js ''toggle'')) page0
     = (Some AssertionFailed, store3, page0) \<and>
   handler (js ''2.1.2'') [scrollDown, reload] bindings3 store3 None page0
     = (Some AssertionFailed, store3, page0) \<and>
   fst (handler (js ''2.1.2'') [scrollDown, reload] bindings3 store3 (Some (js ''show'')) page0)
     \<noteq> Some AssertionFailed \<and>
   fst (handler (js ''2.1.2'') [scrollDown, reload] bindings3 store3 (Some (js ''hide'')) page0)
     \<noteq> Some AssertionFailed \<and>
   fst (handler (js ''2.1.2'') [scrollDown, reload] bindings3 store3 (Some (js ''hidden'')) page0)
     \<noteq> Some AssertionFailed"
proof -
  note t = handler_assertion_iff [of _ "js ''2.1.2''" "[scrollDown, reload]" bindings3 store3 page0]
  have a: "Some (js ''toggle'') \<notin> {Some (js ''show''), Some (js ''hide''), Some (js ''hidden'')}"
    by (simp add: js_def)
  have b: "None \<notin> {Some (js ''show''), Some (js ''hide''), Some (js ''hidden'')}"
    by simp
  have 1: "handler (js ''2.1.2'') [scrollDown, reload] bindings3 store3 (Some (js ''toggle'')) page0
     = (Some AssertionFailed, store3, page0)"
    using t [of "Some (js ''toggle'')"] a by blast
  have 2: "handler (js ''2.1.2'') [scrollDown, reload] bindings3 store3 None page0
     = (Some AssertionFailed, store3, page0)"
    using t [of None] b by blast
  have 3: "fst (handler (js ''2.1.2'') [scrollDown, reload] bindings3 store3 (Some (js ''show'')) page0)
     \<noteq> Some AssertionFailed"
    using t [of "Some (js ''show'')"] by blast
  have 4: "fst (handler (js ''2.1.2'') [scrollDown, reload] bindings3 store3 (Some (js ''hide'')) page0)
     \<noteq> Some AssertionFailed"
    using t [of "Some (js ''hide'')"] by blast
  have 5: "fst (handler (js ''2.1.2'') [scrollDown, reload] bindings3 store3 (Some (js ''hidden'')) page0)
     \<noteq> Some AssertionFailed"
    using t [of "Some (js ''hidden'')"] by blast
  show ?thesis using 1 2 3 4 5 by blast
qed

end
